theory Spec2Isabelle
  imports Main
begin

section \<open>Strings and the string primitives the plugin relies on\<close>

text \<open>
  A JavaScript string is a sequence of code units; a \<^typ>\<open>string\<close> (a list of
  characters) stands for it, one character per code unit. Numbers that index into a
  string are integers, so they are modelled by \<^typ>\<open>int\<close>.
\<close>

definition newline :: char where
  "newline = CHR 0x0A"

text \<open>\<^verbatim>\<open>s.split(sep)\<close> for a one-character separator: never empty, one more
  piece than there are separators.\<close>

fun js_split :: "char \<Rightarrow> string \<Rightarrow> string list" where
  "js_split sep [] = [[]]"
| "js_split sep (c # cs) =
     (if c = sep then [] # js_split sep cs
      else (c # hd (js_split sep cs)) # tl (js_split sep cs))"

text \<open>\<^verbatim>\<open>s.slice(start, stop)\<close>: a negative index counts from the end, and both
  indices are clamped to the string.\<close>

definition js_slice :: "string \<Rightarrow> int \<Rightarrow> int \<Rightarrow> string" where
  "js_slice s start stop =
     (let len = int (length s);
          lo = (if start < 0 then max (len + start) 0 else min start len);
          hi = (if stop < 0 then max (len + stop) 0 else min stop len)
      in take (nat (max (hi - lo) 0)) (drop (nat lo) s))"

text \<open>\<^verbatim>\<open>s.lastIndexOf(c)\<close>: the index of the last occurrence, or \<open>-1\<close>.\<close>

fun js_lastIndexOf :: "char \<Rightarrow> string \<Rightarrow> int" where
  "js_lastIndexOf c [] = - 1"
| "js_lastIndexOf c (x # xs) =
     (let r = js_lastIndexOf c xs
      in if 0 \<le> r then r + 1 else if x = c then 0 else - 1)"

text \<open>\<^verbatim>\<open>xs.reduce((acc, cur, index) => ..., init)\<close>: a left fold that also
  hands the callback the index of the current element.\<close>

fun reduce_from :: "int \<Rightarrow> ('a \<Rightarrow> 'b \<Rightarrow> int \<Rightarrow> 'a) \<Rightarrow> 'a \<Rightarrow> 'b list \<Rightarrow> 'a" where
  "reduce_from i f acc [] = acc"
| "reduce_from i f acc (x # xs) = reduce_from (i + 1) f (f acc x i) xs"

definition js_reduce :: "('a \<Rightarrow> 'b \<Rightarrow> int \<Rightarrow> 'a) \<Rightarrow> 'a \<Rightarrow> 'b list \<Rightarrow> 'a" where
  "js_reduce f init xs = reduce_from 0 f init xs"

section \<open>The position codec\<close>

record CursorPosition =
  line :: int
  ch :: int

definition positionToCursorOffset :: "string \<Rightarrow> CursorPosition \<Rightarrow> int" where
  "positionToCursorOffset code p =
     js_reduce
       (\<lambda>pos currLine index.
          if index < line p then pos + int (length currLine) + 1
          else if index = line p then pos + ch p
          else pos)
       0 (js_split newline code)"

definition cursorOffsetToPosition :: "string \<Rightarrow> int \<Rightarrow> CursorPosition" where
  "cursorOffsetToPosition code cursorOffset =
     (let substring = js_slice code 0 cursorOffset;
          ln = int (length (js_split newline substring)) - 1;
          indexOfLastLine = js_lastIndexOf newline substring
      in \<lparr> line = ln, ch = cursorOffset - indexOfLastLine - 1 \<rparr>)"

section \<open>Settings and the options handed to the formatting engine\<close>

datatype ProseWrap = Always | Never | Preserve

record PrettierPluginSettings =
  formatOnSave :: bool
  embeddedLanguageFormatting :: bool
  proseWrap :: ProseWrap
  printWidth :: int

datatype EmbeddedLanguageFormatting = Auto | Off

text \<open>The object \<^verbatim>\<open>getPrettierSettings\<close> returns. Its first three fields carry
  the prefix \<open>opt_\<close> to keep them apart from the settings of the same name.\<close>

record PrettierOptions =
  opt_embeddedLanguageFormatting :: EmbeddedLanguageFormatting
  opt_proseWrap :: ProseWrap
  opt_printWidth :: int
  useTabs :: bool
  tabWidth :: int

text \<open>\<^verbatim>\<open>type GetConfig<T> = { getConfig(setting: string): T | undefined }\<close>: the
  vault is read through this type once at \<^verbatim>\<open>boolean\<close> and once at
  \<^verbatim>\<open>number\<close>; \<open>None\<close> is \<^verbatim>\<open>undefined\<close>.\<close>

type_synonym 'a GetConfig = "string \<Rightarrow> 'a option"

record Vault =
  getConfig_boolean :: "bool GetConfig"
  getConfig_number :: "int GetConfig"

text \<open>\<^verbatim>\<open>a ?? b\<close>\<close>

definition nullish :: "'a option \<Rightarrow> 'a \<Rightarrow> 'a" where
  "nullish a b = (case a of None \<Rightarrow> b | Some v \<Rightarrow> v)"

section \<open>The host editor\<close>

text \<open>Scroll offsets are only copied, never computed with.\<close>

record ScrollInfo =
  scroll_left :: int
  scroll_top :: int

text \<open>What the getters of the editor return at one moment.\<close>

record Editor =
  getValue :: string
  getCursor :: CursorPosition
  getSelection :: string
  getScrollInfo :: ScrollInfo

text \<open>The calls that change the editor. What each of them does to the buffer, the
  cursor and the scroll state is the host's business; \<open>perform\<close> runs a sequence of
  calls under any interpretation of the host.\<close>

datatype EditorCall =
    SetValue string
  | SetCursor CursorPosition
  | ScrollTo int int
  | ReplaceSelection string

fun perform :: "(EditorCall \<Rightarrow> 'e \<Rightarrow> 'e) \<Rightarrow> EditorCall list \<Rightarrow> 'e \<Rightarrow> 'e" where
  "perform host [] e = e"
| "perform host (c # cs) e = perform host cs (host c e)"

section \<open>The formatting engine\<close>

datatype PrettierPlugin_name = Babel | Estree | Html | Yaml | Ts | Gql | Markdown | Postcss

definition prettierPlugins :: "PrettierPlugin_name list" where
  "prettierPlugins = [Babel, Estree, Html, Yaml, Ts, Gql, Markdown, Postcss]"

record FormatRequest =
  parser :: string
  plugins :: "PrettierPlugin_name list"
  cursorOffset :: "int option"
  options :: PrettierOptions

datatype js_error = Error string

text \<open>The engine is opaque: text and options in; formatted text (and the moved cursor
  offset) out, or a rejection (\<open>Inl\<close>).\<close>

record Prettier =
  prettierFormatWithCursor :: "string \<Rightarrow> FormatRequest \<Rightarrow> js_error + string \<times> int"
  prettierFormat :: "string \<Rightarrow> FormatRequest \<Rightarrow> js_error + string"

section \<open>Asynchronous operations\<close>

text \<open>
  How a promise settles, together with the editor calls made on the way.
\<close>

datatype settled = Fulfilled | Rejected js_error

type_synonym outcome = "EditorCall list \<times> settled"

text \<open>
  An \<^verbatim>\<open>async\<close> function runs synchronously up to its \<^verbatim>\<open>await\<close> and hands
  control back to its caller there; the rest of its body runs when the awaited promise
  has settled. A task is therefore either finished without awaiting, or suspended at a
  call of the engine, holding the text and the request it passed and the rest of the
  body: a function of the engine's answer and of the editor as it is at that moment.
\<close>

datatype Task =
    Finished outcome
  | AwaitFormatWithCursor string FormatRequest
      "(js_error + string \<times> int) \<Rightarrow> Editor \<Rightarrow> outcome"
  | AwaitFormat string FormatRequest
      "(js_error + string) \<Rightarrow> Editor \<Rightarrow> outcome"

text \<open>Awaiting a task, with nothing else touching the editor in between.\<close>

fun await :: "Prettier \<Rightarrow> Editor \<Rightarrow> Task \<Rightarrow> outcome" where
  "await engine editor (Finished r) = r"
| "await engine editor (AwaitFormatWithCursor text req rest) =
     rest (prettierFormatWithCursor engine text req) editor"
| "await engine editor (AwaitFormat text req rest) =
     rest (prettierFormat engine text req) editor"

section \<open>The plugin\<close>

text \<open>\<open>activeMarkdownView\<close> is
  \<^verbatim>\<open>workspace.getActiveViewOfType(MarkdownView)\<close>, given by the editor of the
  view; \<open>None\<close> when no such view is active.\<close>

datatype Callback =
    HostCallback nat
  | FormatThenSave Callback

record CommandDefinition =
  callback :: "Callback option"

record App =
  vault :: Vault
  activeMarkdownView :: "Editor option"
  commands :: "string \<rightharpoonup> CommandDefinition"

record PrettierPlugin =
  app :: App
  settings :: PrettierPluginSettings

datatype FormatKind = document | selection

definition getPrettierSettings :: "PrettierPlugin \<Rightarrow> PrettierOptions" where
  "getPrettierSettings this =
     (let embedded = (if embeddedLanguageFormatting (settings this) then Auto else Off);
          tabs = nullish (getConfig_boolean (vault (app this)) ''useTabs'') False;
          width = nullish (getConfig_number (vault (app this)) ''tabSize'') 4
      in \<lparr> opt_embeddedLanguageFormatting = embedded,
           opt_proseWrap = proseWrap (settings this),
           opt_printWidth = printWidth (settings this),
           useTabs = tabs,
           tabWidth = width \<rparr>)"

definition formatDocument :: "PrettierPlugin \<Rightarrow> Editor \<Rightarrow> Task" where
  "formatDocument this editor =
     (let text = getValue editor;
          cursor = getCursor editor;
          position = positionToCursorOffset text cursor
      in AwaitFormatWithCursor text
           \<lparr> parser = ''markdown'', plugins = prettierPlugins,
             cursorOffset = Some position, options = getPrettierSettings this \<rparr>
           (\<lambda>answer editor'.
              case answer of
                Inl e \<Rightarrow> ([], Rejected e)
              | Inr (rawFormatted, offset) \<Rightarrow>
                  (let formatted = rawFormatted
                   in if formatted = text then ([], Fulfilled)
                      else (let info = getScrollInfo editor'
                            in ([SetValue formatted,
                                 SetCursor (cursorOffsetToPosition formatted offset),
                                 ScrollTo (scroll_left info) (scroll_top info)],
                                Fulfilled)))))"

definition formatSelection :: "PrettierPlugin \<Rightarrow> Editor \<Rightarrow> Task" where
  "formatSelection this editor =
     (let text = getSelection editor
      in AwaitFormat text
           \<lparr> parser = ''markdown'', plugins = prettierPlugins,
             cursorOffset = None, options = getPrettierSettings this \<rparr>
           (\<lambda>answer editor'.
              case answer of
                Inl e \<Rightarrow> ([], Rejected e)
              | Inr formatted \<Rightarrow>
                  if formatted = text then ([], Fulfilled)
                  else ([ReplaceSelection formatted], Fulfilled)))"

definition format :: "PrettierPlugin \<Rightarrow> FormatKind \<Rightarrow> Editor \<Rightarrow> Task" where
  "format this kind editor =
     (case activeMarkdownView (app this) of
        Some activeView \<Rightarrow>
          (case kind of
             document \<Rightarrow> formatDocument this editor
           | selection \<Rightarrow> formatSelection this editor)
      | None \<Rightarrow> Finished ([], Fulfilled))"

section \<open>Hooking into the save command\<close>

text \<open>
  \<open>hookIntoSaveCmd\<close> replaces the callback of the command \<^verbatim>\<open>editor:save-file\<close>,
  when the host has one, by a closure around the original callback \<open>save\<close>; the
  closure is \<open>FormatThenSave save\<close>. A callback of the host is opaque
  (\<open>HostCallback\<close>).
\<close>

definition hookIntoSaveCmd :: "PrettierPlugin \<Rightarrow> PrettierPlugin" where
  "hookIntoSaveCmd this =
     (case commands (app this) ''editor:save-file'' of
        None \<Rightarrow> this
      | Some saveCommandDefinition \<Rightarrow>
          (case callback saveCommandDefinition of
             None \<Rightarrow> this
           | Some save \<Rightarrow>
               this\<lparr> app := (app this)\<lparr> commands := (commands (app this))
                 (''editor:save-file'' \<mapsto>
                    saveCommandDefinition\<lparr> callback := Some (FormatThenSave save) \<rparr>) \<rparr> \<rparr>))"

text \<open>
  What happens when a callback is invoked, in the order in which it happens. The
  closure calls \<open>format\<close> and does not await the promise it gets back, so of the
  format operation only the part before its \<^verbatim>\<open>await\<close> runs before the closure
  goes on to \<open>save()\<close>. The suspended tasks are resumed after the callback has
  returned.
\<close>

datatype Event =
    HostRan nat
  | EngineCalled string FormatRequest
  | Call EditorCall

fun started :: "Task \<Rightarrow> Event list" where
  "started (Finished r) = map Call (fst r)"
| "started (AwaitFormatWithCursor text req rest) = [EngineCalled text req]"
| "started (AwaitFormat text req rest) = [EngineCalled text req]"

fun resumed :: "Prettier \<Rightarrow> Editor \<Rightarrow> Task \<Rightarrow> Event list" where
  "resumed engine editor' (Finished r) = []"
| "resumed engine editor' (AwaitFormatWithCursor text req rest) =
     map Call (fst (rest (prettierFormatWithCursor engine text req) editor'))"
| "resumed engine editor' (AwaitFormat text req rest) =
     map Call (fst (rest (prettierFormat engine text req) editor'))"

text \<open>The tasks a callback starts and leaves behind, and the events of its own run.\<close>

fun spawned :: "PrettierPlugin \<Rightarrow> Callback \<Rightarrow> Task list" where
  "spawned this (HostCallback n) = []"
| "spawned this (FormatThenSave save) =
     (if formatOnSave (settings this) then
        (case activeMarkdownView (app this) of
           Some editor \<Rightarrow> [format this document editor]
         | None \<Rightarrow> [])
      else []) @ spawned this save"

fun invoke :: "PrettierPlugin \<Rightarrow> Callback \<Rightarrow> Event list" where
  "invoke this (HostCallback n) = [HostRan n]"
| "invoke this (FormatThenSave save) =
     (if formatOnSave (settings this) then
        (case activeMarkdownView (app this) of
           Some editor \<Rightarrow> started (format this document editor)
         | None \<Rightarrow> [])
      else []) @ invoke this save"

text \<open>The whole trace of one invocation: the callback's own run, then the resumed
  tasks, which find the editor as \<open>editor'\<close>.\<close>

definition trace :: "Prettier \<Rightarrow> PrettierPlugin \<Rightarrow> Editor \<Rightarrow> Callback \<Rightarrow> Event list" where
  "trace engine this editor' cb =
     invoke this cb @ concat (map (resumed engine editor') (spawned this cb))"

section \<open>Concrete scenarios\<close>

definition scenario1 :: string where
  "scenario1 = ''a'' @ [newline] @ ''bb'' @ [newline] @ ''ccc''"

definition DEFAULT_SETTINGS :: PrettierPluginSettings where
  "DEFAULT_SETTINGS =
     \<lparr> formatOnSave = False, embeddedLanguageFormatting = False,
       proseWrap = Preserve, printWidth = 80 \<rparr>"

definition bare_vault :: Vault where
  "bare_vault = \<lparr> getConfig_boolean = (\<lambda>setting. None), getConfig_number = (\<lambda>setting. None) \<rparr>"

definition tabbed_vault :: Vault where
  "tabbed_vault =
     \<lparr> getConfig_boolean = (\<lambda>setting. if setting = ''useTabs'' then Some True else None),
       getConfig_number = (\<lambda>setting. if setting = ''tabSize'' then Some 2 else None) \<rparr>"

definition example_editor :: Editor where
  "example_editor =
     \<lparr> getValue = ''# Title'' @ [newline] @ ''text'',
       getCursor = \<lparr> line = 1, ch = 2 \<rparr>,
       getSelection = ''x=1;'',
       getScrollInfo = \<lparr> scroll_left = 0, scroll_top = 120 \<rparr> \<rparr>"

definition other_editor :: Editor where
  "other_editor =
     \<lparr> getValue = ''let x=1;'',
       getCursor = \<lparr> line = 0, ch = 8 \<rparr>,
       getSelection = ''x=1;'',
       getScrollInfo = \<lparr> scroll_left = 3, scroll_top = 0 \<rparr> \<rparr>"

definition example_plugin :: "Vault \<Rightarrow> bool \<Rightarrow> PrettierPlugin" where
  "example_plugin v onSave =
     \<lparr> app = \<lparr> vault = v, activeMarkdownView = Some example_editor,
               commands = [''editor:save-file'' \<mapsto> \<lparr> callback = Some (HostCallback 0) \<rparr>] \<rparr>,
       settings = DEFAULT_SETTINGS\<lparr> formatOnSave := onSave \<rparr> \<rparr>"

text \<open>Three engines: one that leaves every text as it is, one that rejects every text,
  and one that changes its input (it ends the text with a newline; a selection
  \<^verbatim>\<open>x=1;\<close> comes back spaced out).\<close>

definition identity_engine :: Prettier where
  "identity_engine =
     \<lparr> prettierFormatWithCursor = (\<lambda>text req. Inr (text, nullish (cursorOffset req) 0)),
       prettierFormat = (\<lambda>text req. Inr text) \<rparr>"

definition rejecting_engine :: Prettier where
  "rejecting_engine =
     \<lparr> prettierFormatWithCursor = (\<lambda>text req. Inl (Error ''SyntaxError'')),
       prettierFormat = (\<lambda>text req. Inl (Error ''SyntaxError'')) \<rparr>"

definition changing_engine :: Prettier where
  "changing_engine =
     \<lparr> prettierFormatWithCursor =
         (\<lambda>text req. Inr (text @ [newline], nullish (cursorOffset req) 0)),
       prettierFormat =
         (\<lambda>text req. Inr (if text = ''x=1;'' then ''x = 1;'' @ [newline] else text @ [newline])) \<rparr>"

section \<open>Facts about the string primitives and the codec\<close>

lemma reduce_from_closed:
  "reduce_from i (\<lambda>pos currLine index.
          if index < l then pos + int (length currLine) + 1
          else if index = l then pos + c
          else pos) acc ls
   = acc + sum_list (map (\<lambda>x. int (length x) + 1) (take (nat (l - i)) ls))
     + (if i \<le> l \<and> l < i + int (length ls) then c else 0)"
proof (induction ls arbitrary: i acc)
  case Nil
  then show ?case by simp
next
  case (Cons x xs)
  show ?case
  proof (cases "i < l")
    case True
    then have "nat (l - i) = Suc (nat (l - (i + 1)))" by simp
    with True show ?thesis by (simp add: Cons.IH)
  next
    case False
    then show ?thesis by (auto simp add: Cons.IH)
  qed
qed

lemma positionToCursorOffset_closed:
  "positionToCursorOffset code p =
     sum_list (map (\<lambda>x. int (length x) + 1) (take (nat (line p)) (js_split newline code)))
     + (if 0 \<le> line p \<and> line p < int (length (js_split newline code)) then ch p else 0)"
  by (simp add: positionToCursorOffset_def js_reduce_def reduce_from_closed)

lemma js_split_not_Nil: "js_split sep s \<noteq> []"
  by (induction s) auto

lemma js_split_total:
  "sum_list (map (\<lambda>x. int (length x) + 1) (js_split sep s)) = int (length s) + 1"
proof (induction s)
  case Nil
  show ?case by simp
next
  case (Cons c cs)
  obtain y ys where Y: "js_split sep cs = y # ys"
    using js_split_not_Nil [of sep cs] by (cases "js_split sep cs") auto
  with Cons show ?case by auto
qed

lemma positionToCursorOffset_Nil:
  "positionToCursorOffset [] p = (if 0 < line p then 1 else if line p = 0 then ch p else 0)"
  by (auto simp add: positionToCursorOffset_closed)

lemma positionToCursorOffset_newline:
  "positionToCursorOffset (newline # s) p =
     (if 0 < line p then 1 + positionToCursorOffset s (p\<lparr>line := line p - 1\<rparr>)
      else if line p = 0 then ch p else 0)"
proof (cases "0 < line p")
  case True
  then have "nat (line p) = Suc (nat (line p - 1))" by simp
  with True show ?thesis by (auto simp add: positionToCursorOffset_closed)
next
  case False
  then show ?thesis by (auto simp add: positionToCursorOffset_closed)
qed

lemma positionToCursorOffset_line0:
  "line p = 0 \<Longrightarrow> positionToCursorOffset s p = ch p"
  by (simp add: positionToCursorOffset_closed js_split_not_Nil)

lemma positionToCursorOffset_other:
  assumes "x \<noteq> newline"
  shows "positionToCursorOffset (x # s) p =
     (if 0 < line p then 1 + positionToCursorOffset s p else positionToCursorOffset s p)"
proof -
  obtain y ys where Y: "js_split newline s = y # ys"
    using js_split_not_Nil [of newline s] by (cases "js_split newline s") auto
  show ?thesis
  proof (cases "0 < line p")
    case True
    then have "nat (line p) = Suc (nat (line p - 1))" by simp
    with True assms Y show ?thesis by (auto simp add: positionToCursorOffset_closed)
  next
    case False
    with assms Y show ?thesis by (auto simp add: positionToCursorOffset_closed)
  qed
qed

lemma js_slice_prefix:
  "0 \<le> off \<Longrightarrow> off \<le> int (length s) \<Longrightarrow> js_slice s 0 off = take (nat off) s"
  by (simp add: js_slice_def Let_def min_def max_def)

lemma js_lastIndexOf_ge: "- 1 \<le> js_lastIndexOf c s"
  by (induction s) (auto simp add: Let_def)

lemma js_lastIndexOf_lines:
  "(0 \<le> js_lastIndexOf c s) = (1 < length (js_split c s))"
  by (induction s) (auto simp add: Let_def js_split_not_Nil)

lemma cursorOffsetToPosition_0: "cursorOffsetToPosition s 0 = \<lparr>line = 0, ch = 0\<rparr>"
  by (simp add: cursorOffsetToPosition_def js_slice_def)

lemma cursorOffsetToPosition_Suc:
  assumes "0 \<le> off" "off \<le> int (length s)"
  shows "cursorOffsetToPosition (x # s) (off + 1) =
     (let q = cursorOffsetToPosition s off
      in if x = newline then q\<lparr>line := line q + 1\<rparr>
         else if line q = 0 then q\<lparr>ch := ch q + 1\<rparr> else q)"
proof -
  have 1: "js_slice (x # s) 0 (off + 1) = x # take (nat off) s"
    using assms by (simp add: js_slice_prefix nat_add_distrib)
  have 2: "js_slice s 0 off = take (nat off) s"
    using assms by (simp add: js_slice_prefix)
  show ?thesis
    unfolding cursorOffsetToPosition_def 1 2
    using js_lastIndexOf_lines [of newline "take (nat off) s"]
      js_lastIndexOf_ge [of newline "take (nat off) s"]
      js_split_not_Nil [of newline "take (nat off) s"]
    by (cases "js_split newline (take (nat off) s)") (auto simp add: Let_def)
qed

lemma cursorOffsetToPosition_line_ge:
  "0 \<le> line (cursorOffsetToPosition s off)"
  using js_split_not_Nil [of newline "js_slice s 0 off"]
  by (cases "js_split newline (js_slice s 0 off)") (auto simp add: cursorOffsetToPosition_def Let_def)

lemma roundtrip_position_bounds:
  "0 \<le> line p \<Longrightarrow> line p < int (length (js_split newline b)) \<Longrightarrow>
   0 \<le> ch p \<Longrightarrow> ch p \<le> int (length (js_split newline b ! nat (line p))) \<Longrightarrow>
     cursorOffsetToPosition b (positionToCursorOffset b p) = p
     \<and> 0 \<le> positionToCursorOffset b p
     \<and> positionToCursorOffset b p \<le> int (length b)"
proof (induction b arbitrary: p)
  case Nil
  then have "line p = 0" "ch p = 0" by simp_all
  then show ?case
    by (simp add: positionToCursorOffset_line0 cursorOffsetToPosition_0)
next
  case (Cons x b)
  obtain y ys where Y: "js_split newline b = y # ys"
    using js_split_not_Nil [of newline b] by (cases "js_split newline b") auto
  show ?case
  proof (cases "line p = 0")
    case l0: True
    then have off: "positionToCursorOffset (x # b) p = ch p"
      by (simp add: positionToCursorOffset_line0)
    show ?thesis
    proof (cases "ch p = 0")
      case True
      with l0 off show ?thesis by (simp add: cursorOffsetToPosition_0)
    next
      case False
      with Cons.prems l0 have xn: "x \<noteq> newline" by auto
      define p' where "p' = p\<lparr>ch := ch p - 1\<rparr>"
      have "cursorOffsetToPosition b (positionToCursorOffset b p') = p'
          \<and> 0 \<le> positionToCursorOffset b p'
          \<and> positionToCursorOffset b p' \<le> int (length b)"
        using Cons.prems l0 False xn Y by (intro Cons.IH) (auto simp add: p'_def)
      moreover have "positionToCursorOffset b p' = ch p - 1"
        using l0 by (simp add: positionToCursorOffset_line0 p'_def)
      ultimately have q: "cursorOffsetToPosition b (ch p - 1) = p'"
        and k: "0 \<le> ch p - 1" "ch p - 1 \<le> int (length b)" by simp_all
      have "cursorOffsetToPosition (x # b) (ch p - 1 + 1) = p"
        using cursorOffsetToPosition_Suc [OF k, of x] xn l0
        by (simp add: q p'_def)
      with off k show ?thesis by simp
    qed
  next
    case False
    with Cons.prems have lpos: "0 < line p" by simp
    then have nat_l: "nat (line p) = Suc (nat (line p - 1))" by simp
    show ?thesis
    proof (cases "x = newline")
      case True
      define p' where "p' = p\<lparr>line := line p - 1\<rparr>"
      have IH: "cursorOffsetToPosition b (positionToCursorOffset b p') = p'
          \<and> 0 \<le> positionToCursorOffset b p'
          \<and> positionToCursorOffset b p' \<le> int (length b)"
        using Cons.prems lpos True nat_l by (intro Cons.IH) (auto simp add: p'_def)
      have off: "positionToCursorOffset (x # b) p = positionToCursorOffset b p' + 1"
        using True lpos by (simp add: positionToCursorOffset_newline p'_def)
      have "cursorOffsetToPosition (x # b) (positionToCursorOffset b p' + 1) = p"
        using cursorOffsetToPosition_Suc [of "positionToCursorOffset b p'" b x] IH True
        by (simp add: p'_def)
      with off IH show ?thesis by simp
    next
      case xn: False
      have IH: "cursorOffsetToPosition b (positionToCursorOffset b p) = p
          \<and> 0 \<le> positionToCursorOffset b p
          \<and> positionToCursorOffset b p \<le> int (length b)"
        using Cons.prems lpos xn nat_l Y by (intro Cons.IH) auto
      have off: "positionToCursorOffset (x # b) p = positionToCursorOffset b p + 1"
        using xn lpos by (simp add: positionToCursorOffset_other)
      have "cursorOffsetToPosition (x # b) (positionToCursorOffset b p + 1) = p"
        using cursorOffsetToPosition_Suc [of "positionToCursorOffset b p" b x] IH xn lpos
        by simp
      with off IH show ?thesis by simp
    qed
  qed
qed

lemma length_js_split: "length (js_split sep s) = count_list s sep + 1"
  by (induction s) (auto simp add: js_split_not_Nil)

lemma js_lastIndexOf_absent: "c \<notin> set s \<Longrightarrow> js_lastIndexOf c s = - 1"
  by (induction s) (auto simp add: Let_def)

lemma js_lastIndexOf_last:
  "i < length s \<Longrightarrow> s ! i = c \<Longrightarrow> \<forall>j. i < j \<and> j < length s \<longrightarrow> s ! j \<noteq> c \<Longrightarrow>
     js_lastIndexOf c s = int i"
proof (induction s arbitrary: i)
  case Nil
  then show ?case by simp
next
  case (Cons x xs)
  show ?case
  proof (cases i)
    case 0
    have "c \<notin> set xs"
    proof
      assume "c \<in> set xs"
      then obtain j where "j < length xs" "xs ! j = c" by (auto simp add: in_set_conv_nth)
      with Cons.prems(3) 0 show False by (auto dest: spec [of _ "Suc j"])
    qed
    with Cons.prems 0 show ?thesis by (simp add: js_lastIndexOf_absent)
  next
    case (Suc k)
    have "js_lastIndexOf c xs = int k"
    proof (rule Cons.IH)
      show "k < length xs" using Cons.prems Suc by simp
      show "xs ! k = c" using Cons.prems Suc by simp
      show "\<forall>j. k < j \<and> j < length xs \<longrightarrow> xs ! j \<noteq> c"
        using Cons.prems(3) Suc by (auto dest: spec [of _ "Suc j" for j])
    qed
    with Suc show ?thesis by simp
  qed
qed


lemma scenario1_chars:
  "scenario1 = [CHR ''a'', newline, CHR ''b'', CHR ''b'', newline, CHR ''c'', CHR ''c'', CHR ''c'']"
  by (simp add: scenario1_def)

lemma scenario1_lines: "js_split newline scenario1 = [''a'', ''bb'', ''ccc'']"
  by (simp add: scenario1_chars newline_def)

section \<open>The position codec: round trips\<close>

text \<open>
  C1. For every buffer \<open>b\<close> and every offset \<open>off\<close> with \<open>0 \<le> off \<le> length b\<close>,
  turning the offset into a position and the position back into an offset gives
  \<open>off\<close> again.
\<close>

theorem roundtrip_offset:
  "0 \<le> off \<Longrightarrow> off \<le> int (length b) \<Longrightarrow>
     positionToCursorOffset b (cursorOffsetToPosition b off) = off"
proof (induction b arbitrary: off)
  case Nil
  then show ?case by (simp add: cursorOffsetToPosition_0 positionToCursorOffset_Nil)
next
  case (Cons x b)
  show ?case
  proof (cases "off = 0")
    case True
    then show ?thesis by (simp add: cursorOffsetToPosition_0 positionToCursorOffset_line0)
  next
    case False
    define k where "k = off - 1"
    have k: "0 \<le> k" "k \<le> int (length b)" "off = k + 1"
      using Cons.prems False by (simp_all add: k_def)
    define q where "q = cursorOffsetToPosition b k"
    have IH: "positionToCursorOffset b q = k"
      unfolding q_def using k by (intro Cons.IH)
    have q0: "0 \<le> line q" unfolding q_def by (rule cursorOffsetToPosition_line_ge)
    have step: "cursorOffsetToPosition (x # b) off =
        (if x = newline then q\<lparr>line := line q + 1\<rparr>
         else if line q = 0 then q\<lparr>ch := ch q + 1\<rparr> else q)"
      unfolding k(3) q_def using cursorOffsetToPosition_Suc [OF k(1) k(2), of x]
      by (simp add: Let_def)
    show ?thesis
    proof (cases "x = newline")
      case True
      with step IH q0 k show ?thesis
        by (simp add: positionToCursorOffset_newline)
    next
      case nl: False
      show ?thesis
      proof (cases "line q = 0")
        case True
        with IH have "ch q = k" by (simp add: positionToCursorOffset_line0)
        with True nl step k show ?thesis
          by (simp add: positionToCursorOffset_line0)
      next
        case False
        with q0 have "0 < line q" by simp
        with False nl step IH k show ?thesis
          by (simp add: positionToCursorOffset_other)
      qed
    qed
  qed
qed



theorem roundtrip_offset_witness:
  "(0::int) \<le> 4 \<and> 4 \<le> int (length scenario1)
     \<and> positionToCursorOffset scenario1 (cursorOffsetToPosition scenario1 4) = 4"
proof -
  have h1: "(0::int) \<le> 4" by simp
  have h2: "4 \<le> int (length scenario1)" by (simp add: scenario1_def)
  show ?thesis using h1 h2 roundtrip_offset [OF h1 h2] by simp
qed

text \<open>
  C2. For every buffer \<open>b\<close> and every position \<open>p\<close> whose line is an index into the
  lines of \<open>b\<close> (split on the newline) and whose column lies between \<open>0\<close> and the
  length of that line, both included, turning the position into an offset and the offset
  back into a position gives \<open>p\<close> again.
\<close>

theorem roundtrip_position:
  assumes "0 \<le> line p" and "line p < int (length (js_split newline b))"
    and "0 \<le> ch p" and "ch p \<le> int (length (js_split newline b ! nat (line p)))"
  shows "cursorOffsetToPosition b (positionToCursorOffset b p) = p"
  using roundtrip_position_bounds [OF assms] by simp

theorem roundtrip_position_witness:
  "(0::int) \<le> line \<lparr>line = 1, ch = 2\<rparr>
     \<and> line \<lparr>line = 1, ch = 2\<rparr> < int (length (js_split newline scenario1))
     \<and> (0::int) \<le> ch \<lparr>line = 1, ch = 2\<rparr>
     \<and> ch \<lparr>line = 1, ch = 2\<rparr>
         \<le> int (length (js_split newline scenario1 ! nat (line \<lparr>line = 1, ch = 2\<rparr>)))
     \<and> cursorOffsetToPosition scenario1
          (positionToCursorOffset scenario1 \<lparr>line = 1, ch = 2\<rparr>) = \<lparr>line = 1, ch = 2\<rparr>"
proof -
  have h1: "(0::int) \<le> line \<lparr>line = 1, ch = 2\<rparr>" by simp
  have h2: "line \<lparr>line = 1, ch = 2\<rparr> < int (length (js_split newline scenario1))"
    by (simp add: scenario1_lines)
  have h3: "(0::int) \<le> ch \<lparr>line = 1, ch = 2\<rparr>" by simp
  have h4: "ch \<lparr>line = 1, ch = 2\<rparr>
      \<le> int (length (js_split newline scenario1 ! nat (line \<lparr>line = 1, ch = 2\<rparr>)))"
    by (simp add: scenario1_lines)
  show ?thesis using h1 h2 h3 h4 roundtrip_position [OF h1 h2 h3 h4] by simp
qed

section \<open>The position codec: the first scenario\<close>

text \<open>
  C7, as the specification has it: in the buffer \<open>scenario1\<close> the position line 1,
  column 1 has offset 4, and offset 4 is the position line 1, column 1. Neither
  holds: the first line and its newline take two characters, so that position has
  offset 3, and offset 4 lies one column further right.
\<close>

theorem scenario1_not_offset_4:
  "positionToCursorOffset scenario1 \<lparr>line = 1, ch = 1\<rparr> \<noteq> 4
     \<and> cursorOffsetToPosition scenario1 4 \<noteq> \<lparr>line = 1, ch = 1\<rparr>"
  by (simp add: positionToCursorOffset_def js_reduce_def scenario1_lines
      cursorOffsetToPosition_def js_slice_def scenario1_chars newline_def)

text \<open>
  C7, amended: in the buffer \<open>scenario1\<close> the position line 1, column 1 has offset 3,
  and offset 3 is the position line 1, column 1; offset 4 is the position line 1,
  column 2.
\<close>

theorem scenario1_offset_3:
  "positionToCursorOffset scenario1 \<lparr>line = 1, ch = 1\<rparr> = 3
     \<and> cursorOffsetToPosition scenario1 3 = \<lparr>line = 1, ch = 1\<rparr>
     \<and> cursorOffsetToPosition scenario1 4 = \<lparr>line = 1, ch = 2\<rparr>"
  by (simp add: positionToCursorOffset_def js_reduce_def scenario1_lines
      cursorOffsetToPosition_def js_slice_def scenario1_chars newline_def)

section \<open>The position codec: what a position and an offset are\<close>

text \<open>
  C8. For every buffer \<open>b\<close> and every offset \<open>off\<close> with \<open>0 \<le> off \<le> length b\<close>,
  the line of \<open>cursorOffsetToPosition b off\<close> is the number of newlines among the
  first \<open>off\<close> characters of \<open>b\<close>, and its column is \<open>off\<close> minus the index of
  the last newline among them minus one; when there is no newline among them, the
  position is line 0, column \<open>off\<close>.
\<close>

theorem position_of_offset:
  assumes "0 \<le> off" and "off \<le> int (length b)"
  shows "line (cursorOffsetToPosition b off) = int (count_list (take (nat off) b) newline)
     \<and> (\<forall>i. i < nat off \<and> b ! i = newline
              \<and> (\<forall>j. i < j \<and> j < nat off \<longrightarrow> b ! j \<noteq> newline)
            \<longrightarrow> ch (cursorOffsetToPosition b off) = off - int i - 1)
     \<and> (newline \<notin> set (take (nat off) b)
            \<longrightarrow> cursorOffsetToPosition b off = \<lparr>line = 0, ch = off\<rparr>)"
proof -
  have sl: "js_slice b 0 off = take (nat off) b"
    using assms by (rule js_slice_prefix)
  have 1: "line (cursorOffsetToPosition b off) = int (count_list (take (nat off) b) newline)"
    by (simp add: cursorOffsetToPosition_def sl length_js_split Let_def)
  have 2: "ch (cursorOffsetToPosition b off) = off - int i - 1"
    if h: "i < nat off \<and> b ! i = newline \<and> (\<forall>j. i < j \<and> j < nat off \<longrightarrow> b ! j \<noteq> newline)"
    for i
  proof -
    have "js_lastIndexOf newline (take (nat off) b) = int i"
      using h assms by (intro js_lastIndexOf_last) auto
    then show ?thesis
      by (simp add: cursorOffsetToPosition_def sl Let_def)
  qed
  have 3: "cursorOffsetToPosition b off = \<lparr>line = 0, ch = off\<rparr>"
    if "newline \<notin> set (take (nat off) b)"
    using that
    by (simp add: cursorOffsetToPosition_def sl length_js_split js_lastIndexOf_absent Let_def)
  from 1 2 3 show ?thesis by blast
qed

theorem position_of_offset_witness:
  "(0::int) \<le> 4 \<and> 4 \<le> int (length scenario1)
     \<and> (1::nat) < nat 4 \<and> scenario1 ! 1 = newline
     \<and> scenario1 ! 2 \<noteq> newline \<and> scenario1 ! 3 \<noteq> newline
     \<and> line (cursorOffsetToPosition scenario1 4) = 1
     \<and> ch (cursorOffsetToPosition scenario1 4) = 2
     \<and> (0::int) \<le> 1 \<and> 1 \<le> int (length scenario1)
     \<and> newline \<notin> set (take (nat 1) scenario1)
     \<and> cursorOffsetToPosition scenario1 1 = \<lparr>line = 0, ch = 1\<rparr>"
proof -
  have h1: "(0::int) \<le> 4" and h2: "4 \<le> int (length scenario1)"
    and g1: "(0::int) \<le> 1" and g2: "1 \<le> int (length scenario1)"
    by (simp_all add: scenario1_chars)
  have a: "(1::nat) < nat 4" by simp
  have b: "scenario1 ! 1 = newline"
    and c: "scenario1 ! 2 \<noteq> newline" "scenario1 ! 3 \<noteq> newline"
    by (simp_all add: scenario1_chars newline_def)
  have d: "\<forall>j. 1 < j \<and> j < nat 4 \<longrightarrow> scenario1 ! j \<noteq> newline"
  proof (intro allI impI)
    fix j :: nat
    assume "1 < j \<and> j < nat 4"
    then have "j = 2 \<or> j = 3" by auto
    with c show "scenario1 ! j \<noteq> newline" by auto
  qed
  have e: "newline \<notin> set (take (nat 1) scenario1)"
    by (simp add: scenario1_chars newline_def)
  have cnt: "count_list (take (nat 4) scenario1) newline = 1"
    by (simp add: scenario1_chars newline_def)
  note spec4 = position_of_offset [OF h1 h2]
  from spec4 cnt have "line (cursorOffsetToPosition scenario1 4) = 1" by simp
  moreover from spec4 have "1 < nat 4 \<and> scenario1 ! 1 = newline
        \<and> (\<forall>j. 1 < j \<and> j < nat 4 \<longrightarrow> scenario1 ! j \<noteq> newline)
      \<longrightarrow> ch (cursorOffsetToPosition scenario1 4) = 4 - int 1 - 1"
    by blast
  with a b d have "ch (cursorOffsetToPosition scenario1 4) = 2" by simp
  moreover from position_of_offset [OF g1 g2] e
  have "cursorOffsetToPosition scenario1 1 = \<lparr>line = 0, ch = 1\<rparr>" by blast
  ultimately show ?thesis using h1 h2 g1 g2 a b c e by simp
qed

text \<open>
  C9. For every buffer \<open>b\<close> and every position \<open>p\<close> whose line is at least the
  number of lines of \<open>b\<close>, \<open>positionToCursorOffset b p\<close> is \<open>length b + 1\<close>,
  whatever the column of \<open>p\<close>: an offset beyond the end of the buffer.
\<close>

theorem beyond_last_line:
  assumes "int (length (js_split newline b)) \<le> line p"
  shows "positionToCursorOffset b p = int (length b) + 1
     \<and> int (length b) < positionToCursorOffset b p"
  using assms by (simp add: positionToCursorOffset_closed js_split_total)

theorem beyond_last_line_witness:
  "int (length (js_split newline scenario1)) \<le> line \<lparr>line = 3, ch = 17\<rparr>
     \<and> positionToCursorOffset scenario1 \<lparr>line = 3, ch = 17\<rparr> = 9
     \<and> int (length scenario1) < positionToCursorOffset scenario1 \<lparr>line = 3, ch = 17\<rparr>"
proof -
  have h: "int (length (js_split newline scenario1)) \<le> line \<lparr>line = 3, ch = 17\<rparr>"
    by (simp add: scenario1_lines)
  have len: "int (length scenario1) = 8" by (simp add: scenario1_chars)
  show ?thesis using h beyond_last_line [OF h] len by simp
qed

section \<open>The format operations\<close>

text \<open>
  C3. In \<open>formatDocument\<close>, when the engine returns a text equal to the text of the
  buffer, nothing more is done: no \<open>SetValue\<close>, \<open>SetCursor\<close> or \<open>ScrollTo\<close> is
  issued, so the editor is left as it was, whatever the host makes of such calls.
\<close>

theorem formatDocument_unchanged_text:
  assumes "prettierFormatWithCursor engine (getValue editor)
             \<lparr> parser = ''markdown'', plugins = prettierPlugins,
               cursorOffset = Some (positionToCursorOffset (getValue editor) (getCursor editor)),
               options = getPrettierSettings this \<rparr>
           = Inr (getValue editor, offset)"
  shows "await engine editor (formatDocument this editor) = ([], Fulfilled)
     \<and> perform host (fst (await engine editor (formatDocument this editor))) e = e"
  using assms by (simp add: formatDocument_def Let_def)

theorem formatDocument_unchanged_text_witness:
  "prettierFormatWithCursor identity_engine (getValue example_editor)
             \<lparr> parser = ''markdown'', plugins = prettierPlugins,
               cursorOffset = Some (positionToCursorOffset (getValue example_editor)
                                      (getCursor example_editor)),
               options = getPrettierSettings (example_plugin bare_vault False) \<rparr>
           = Inr (getValue example_editor, 10)
   \<and> await identity_engine example_editor
         (formatDocument (example_plugin bare_vault False) example_editor) = ([], Fulfilled)
   \<and> perform (\<lambda>c log. log @ [c])
         (fst (await identity_engine example_editor
                 (formatDocument (example_plugin bare_vault False) example_editor))) [] = []"
proof -
  have pos: "positionToCursorOffset (getValue example_editor) (getCursor example_editor) = 10"
    by (simp add: example_editor_def positionToCursorOffset_def js_reduce_def newline_def)
  have h: "prettierFormatWithCursor identity_engine (getValue example_editor)
             \<lparr> parser = ''markdown'', plugins = prettierPlugins,
               cursorOffset = Some (positionToCursorOffset (getValue example_editor)
                                      (getCursor example_editor)),
               options = getPrettierSettings (example_plugin bare_vault False) \<rparr>
           = Inr (getValue example_editor, 10)"
    by (simp add: identity_engine_def nullish_def pos)
  show ?thesis
    using h formatDocument_unchanged_text [OF h, of "\<lambda>c log. log @ [c]" "[]"]
    by simp
qed

text \<open>
  C5. When the engine rejects, \<open>formatDocument\<close> and \<open>formatSelection\<close> reject with
  the same error, and no call that changes the editor has been made.
\<close>

theorem engine_rejection:
  "(prettierFormatWithCursor engine (getValue editor)
       \<lparr> parser = ''markdown'', plugins = prettierPlugins,
         cursorOffset = Some (positionToCursorOffset (getValue editor) (getCursor editor)),
         options = getPrettierSettings this \<rparr> = Inl err
     \<longrightarrow> await engine editor (formatDocument this editor) = ([], Rejected err))
   \<and> (prettierFormat engine (getSelection editor)
       \<lparr> parser = ''markdown'', plugins = prettierPlugins, cursorOffset = None,
         options = getPrettierSettings this \<rparr> = Inl err
     \<longrightarrow> await engine editor (formatSelection this editor) = ([], Rejected err))"
  by (simp add: formatDocument_def formatSelection_def Let_def)

theorem engine_rejection_witness:
  "prettierFormatWithCursor rejecting_engine (getValue example_editor)
       \<lparr> parser = ''markdown'', plugins = prettierPlugins,
         cursorOffset = Some (positionToCursorOffset (getValue example_editor)
                                (getCursor example_editor)),
         options = getPrettierSettings (example_plugin bare_vault False) \<rparr>
     = Inl (Error ''SyntaxError'')
   \<and> await rejecting_engine example_editor
        (formatDocument (example_plugin bare_vault False) example_editor)
       = ([], Rejected (Error ''SyntaxError''))
   \<and> prettierFormat rejecting_engine (getSelection example_editor)
       \<lparr> parser = ''markdown'', plugins = prettierPlugins, cursorOffset = None,
         options = getPrettierSettings (example_plugin bare_vault False) \<rparr>
     = Inl (Error ''SyntaxError'')
   \<and> await rejecting_engine example_editor
        (formatSelection (example_plugin bare_vault False) example_editor)
       = ([], Rejected (Error ''SyntaxError''))"
proof -
  have h1: "prettierFormatWithCursor rejecting_engine (getValue example_editor)
       \<lparr> parser = ''markdown'', plugins = prettierPlugins,
         cursorOffset = Some (positionToCursorOffset (getValue example_editor)
                                (getCursor example_editor)),
         options = getPrettierSettings (example_plugin bare_vault False) \<rparr>
     = Inl (Error ''SyntaxError'')"
    by (simp add: rejecting_engine_def)
  have h2: "prettierFormat rejecting_engine (getSelection example_editor)
       \<lparr> parser = ''markdown'', plugins = prettierPlugins, cursorOffset = None,
         options = getPrettierSettings (example_plugin bare_vault False) \<rparr>
     = Inl (Error ''SyntaxError'')"
    by (simp add: rejecting_engine_def)
  show ?thesis
    using h1 h2
      engine_rejection [of rejecting_engine example_editor
        "example_plugin bare_vault False" "Error ''SyntaxError''"]
    by blast
qed

text \<open>
  C6. \<open>formatSelection\<close> reads nothing of the editor but the selected text. When the
  engine returns the selected text, it changes nothing; when the engine returns another
  text, it replaces the selection by that text and does nothing else. It never sets the
  cursor or the scroll position.
\<close>

theorem formatSelection_replaces_selection:
  "(prettierFormat engine (getSelection editor)
       \<lparr> parser = ''markdown'', plugins = prettierPlugins, cursorOffset = None,
         options = getPrettierSettings this \<rparr> = Inr (getSelection editor)
     \<longrightarrow> await engine editor (formatSelection this editor) = ([], Fulfilled))
   \<and> (prettierFormat engine (getSelection editor)
       \<lparr> parser = ''markdown'', plugins = prettierPlugins, cursorOffset = None,
         options = getPrettierSettings this \<rparr> = Inr formatted
       \<and> formatted \<noteq> getSelection editor
     \<longrightarrow> await engine editor (formatSelection this editor)
           = ([ReplaceSelection formatted], Fulfilled))
   \<and> set (fst (await engine editor (formatSelection this editor))) \<subseteq> range ReplaceSelection
   \<and> (getSelection editor2 = getSelection editor
     \<longrightarrow> formatSelection this editor2 = formatSelection this editor)"
  by (simp add: formatSelection_def Let_def split: sum.splits)

theorem formatSelection_replaces_selection_witness:
  "prettierFormat identity_engine (getSelection example_editor)
       \<lparr> parser = ''markdown'', plugins = prettierPlugins, cursorOffset = None,
         options = getPrettierSettings (example_plugin bare_vault False) \<rparr>
     = Inr (getSelection example_editor)
   \<and> await identity_engine example_editor
        (formatSelection (example_plugin bare_vault False) example_editor) = ([], Fulfilled)
   \<and> prettierFormat changing_engine (getSelection example_editor)
       \<lparr> parser = ''markdown'', plugins = prettierPlugins, cursorOffset = None,
         options = getPrettierSettings (example_plugin bare_vault False) \<rparr>
     = Inr (''x = 1;'' @ [newline])
   \<and> ''x = 1;'' @ [newline] \<noteq> getSelection example_editor
   \<and> await changing_engine example_editor
        (formatSelection (example_plugin bare_vault False) example_editor)
       = ([ReplaceSelection (''x = 1;'' @ [newline])], Fulfilled)
   \<and> getSelection other_editor = getSelection example_editor
   \<and> getValue other_editor \<noteq> getValue example_editor
   \<and> formatSelection (example_plugin bare_vault False) other_editor
       = formatSelection (example_plugin bare_vault False) example_editor"
proof -
  have h1: "prettierFormat identity_engine (getSelection example_editor)
       \<lparr> parser = ''markdown'', plugins = prettierPlugins, cursorOffset = None,
         options = getPrettierSettings (example_plugin bare_vault False) \<rparr>
     = Inr (getSelection example_editor)"
    by (simp add: identity_engine_def)
  have h2: "prettierFormat changing_engine (getSelection example_editor)
       \<lparr> parser = ''markdown'', plugins = prettierPlugins, cursorOffset = None,
         options = getPrettierSettings (example_plugin bare_vault False) \<rparr>
     = Inr (''x = 1;'' @ [newline])"
    by (simp add: changing_engine_def example_editor_def)
  have h3: "''x = 1;'' @ [newline] \<noteq> getSelection example_editor"
    by (simp add: example_editor_def)
  have h4: "getSelection other_editor = getSelection example_editor"
    and h5: "getValue other_editor \<noteq> getValue example_editor"
    by (simp_all add: example_editor_def other_editor_def)
  show ?thesis
    using h1 h2 h3 h4 h5
      formatSelection_replaces_selection [of identity_engine example_editor
        "example_plugin bare_vault False" "getSelection example_editor" other_editor]
      formatSelection_replaces_selection [of changing_engine example_editor
        "example_plugin bare_vault False" "''x = 1;'' @ [newline]" other_editor]
    by blast
qed

section \<open>The options of the engine\<close>

text \<open>
  C10. \<open>getPrettierSettings\<close> takes \<open>useTabs\<close> and \<open>tabWidth\<close> from the
  configuration of the vault as it is when the function is called: the configured values
  when there are some, and \<open>False\<close> and \<open>4\<close> when they are undefined. These are the
  options with which both format operations call the engine.
\<close>

theorem getPrettierSettings_tabs:
  "(getConfig_boolean (vault (app this)) ''useTabs'' = None
      \<longrightarrow> useTabs (getPrettierSettings this) = False)
   \<and> (getConfig_number (vault (app this)) ''tabSize'' = None
      \<longrightarrow> tabWidth (getPrettierSettings this) = 4)
   \<and> (getConfig_boolean (vault (app this)) ''useTabs'' = Some u
      \<longrightarrow> useTabs (getPrettierSettings this) = u)
   \<and> (getConfig_number (vault (app this)) ''tabSize'' = Some w
      \<longrightarrow> tabWidth (getPrettierSettings this) = w)
   \<and> started (formatDocument this editor)
       = [EngineCalled (getValue editor)
            \<lparr> parser = ''markdown'', plugins = prettierPlugins,
              cursorOffset = Some (positionToCursorOffset (getValue editor) (getCursor editor)),
              options = getPrettierSettings this \<rparr>]
   \<and> started (formatSelection this editor)
       = [EngineCalled (getSelection editor)
            \<lparr> parser = ''markdown'', plugins = prettierPlugins, cursorOffset = None,
              options = getPrettierSettings this \<rparr>]"
  by (simp add: getPrettierSettings_def nullish_def formatDocument_def formatSelection_def Let_def)

theorem getPrettierSettings_tabs_witness:
  "getConfig_boolean (vault (app (example_plugin bare_vault False))) ''useTabs'' = None
   \<and> useTabs (getPrettierSettings (example_plugin bare_vault False)) = False
   \<and> getConfig_number (vault (app (example_plugin bare_vault False))) ''tabSize'' = None
   \<and> tabWidth (getPrettierSettings (example_plugin bare_vault False)) = 4
   \<and> getConfig_boolean (vault (app (example_plugin tabbed_vault False))) ''useTabs'' = Some True
   \<and> useTabs (getPrettierSettings (example_plugin tabbed_vault False)) = True
   \<and> getConfig_number (vault (app (example_plugin tabbed_vault False))) ''tabSize'' = Some 2
   \<and> tabWidth (getPrettierSettings (example_plugin tabbed_vault False)) = 2"
proof -
  have h1: "getConfig_boolean (vault (app (example_plugin bare_vault False))) ''useTabs'' = None"
    and h2: "getConfig_number (vault (app (example_plugin bare_vault False))) ''tabSize'' = None"
    by (simp_all add: example_plugin_def bare_vault_def)
  have h3: "getConfig_boolean (vault (app (example_plugin tabbed_vault False))) ''useTabs''
      = Some True"
    and h4: "getConfig_number (vault (app (example_plugin tabbed_vault False))) ''tabSize''
      = Some 2"
    by (simp_all add: example_plugin_def tabbed_vault_def)
  show ?thesis
    using h1 h2 h3 h4
      getPrettierSettings_tabs [of "example_plugin bare_vault False" True 2 example_editor]
      getPrettierSettings_tabs [of "example_plugin tabbed_vault False" True 2 example_editor]
    by blast
qed

section \<open>The save command\<close>

text \<open>
  Whatever the settings and the focus, the closure runs the original callback exactly
  once. When format-on-save is on and an editor is focused, the closure starts the format
  operation first: the engine is called before the original callback runs. The calls that
  change the editor follow the original callback.
\<close>

lemma started_not_HostRan: "filter (\<lambda>e. e = HostRan n) (started t) = []"
  by (cases t) (auto simp add: filter_empty_conv)

lemma resumed_not_HostRan: "filter (\<lambda>e. e = HostRan n) (resumed engine editor' t) = []"
  by (cases t) (auto simp add: filter_empty_conv)

lemma invoke_FormatThenSave:
  "invoke this (FormatThenSave (HostCallback n)) = [HostRan n]
   \<or> (\<exists>editor. invoke this (FormatThenSave (HostCallback n))
          = started (format this document editor) @ [HostRan n])"
  by (cases "activeMarkdownView (app this)"; cases "formatOnSave (settings this)") auto

lemma spawned_FormatThenSave:
  "filter (\<lambda>e. e = HostRan n)
     (concat (map (resumed engine editor') (spawned this (FormatThenSave (HostCallback n))))) = []"
  by (cases "activeMarkdownView (app this)"; cases "formatOnSave (settings this)")
    (simp_all add: resumed_not_HostRan)

lemma original_save_runs_once:
  "filter (\<lambda>e. e = HostRan n)
     (trace engine this editor' (FormatThenSave (HostCallback n))) = [HostRan n]"
proof -
  have "filter (\<lambda>e. e = HostRan n) (invoke this (FormatThenSave (HostCallback n))) = [HostRan n]"
    using invoke_FormatThenSave [of this n]
    by (auto simp add: started_not_HostRan simp del: invoke.simps)
  then show ?thesis
    unfolding trace_def filter_append spawned_FormatThenSave by (simp del: invoke.simps)
qed

lemma format_starts_before_save:
  assumes "formatOnSave (settings this)" and "activeMarkdownView (app this) = Some editor"
  shows "invoke this (FormatThenSave (HostCallback n))
     = [EngineCalled (getValue editor)
          \<lparr> parser = ''markdown'', plugins = prettierPlugins,
            cursorOffset = Some (positionToCursorOffset (getValue editor) (getCursor editor)),
            options = getPrettierSettings this \<rparr>,
        HostRan n]"
  using assms by (simp add: format_def formatDocument_def Let_def)

lemma editor_calls_follow_save:
  assumes "formatOnSave (settings this)" and "activeMarkdownView (app this) = Some editor"
  shows "trace engine this editor' (FormatThenSave (HostCallback n))
     = invoke this (FormatThenSave (HostCallback n))
       @ map Call (fst (await engine editor' (formatDocument this editor)))"
  using assms by (simp add: trace_def format_def formatDocument_def Let_def)

text \<open>
  C4 says that the hook is additive (the original callback runs exactly once, as
  \<open>original_save_runs_once\<close> shows for every invocation) and that, with format-on-save
  on and an editor focused, the document is formatted before the host saves. The run below
  has format-on-save on, the editor of the third scenario focused and an engine that
  changes the text: the original callback runs after the engine has been called and
  before the buffer, the cursor and the scroll position are set.
\<close>

theorem save_precedes_buffer_update:
  "map_option callback
      (commands (app (hookIntoSaveCmd (example_plugin bare_vault True))) ''editor:save-file'')
     = Some (Some (FormatThenSave (HostCallback 0)))
   \<and> trace changing_engine (hookIntoSaveCmd (example_plugin bare_vault True)) example_editor
        (FormatThenSave (HostCallback 0))
     = [EngineCalled (''# Title'' @ [newline] @ ''text'')
          \<lparr> parser = ''markdown'', plugins = prettierPlugins, cursorOffset = Some 10,
            options = \<lparr> opt_embeddedLanguageFormatting = Off, opt_proseWrap = Preserve,
                        opt_printWidth = 80, useTabs = False, tabWidth = 4 \<rparr> \<rparr>,
        HostRan 0,
        Call (SetValue (''# Title'' @ [newline] @ ''text'' @ [newline])),
        Call (SetCursor \<lparr> line = 1, ch = 2 \<rparr>),
        Call (ScrollTo 0 120)]"
proof -
  have hook: "hookIntoSaveCmd (example_plugin bare_vault True)
      = (example_plugin bare_vault True)
          \<lparr> app := (app (example_plugin bare_vault True))
              \<lparr> commands := [''editor:save-file'' \<mapsto>
                                \<lparr> callback = Some (FormatThenSave (HostCallback 0)) \<rparr>] \<rparr> \<rparr>"
    by (simp add: hookIntoSaveCmd_def example_plugin_def)
  have pos: "positionToCursorOffset (''# Title'' @ [newline] @ ''text'') \<lparr> line = 1, ch = 2 \<rparr> = 10"
    by (simp add: positionToCursorOffset_def js_reduce_def newline_def)
  have cur: "cursorOffsetToPosition (''# Title'' @ [newline] @ ''text'' @ [newline]) 10
      = \<lparr> line = 1, ch = 2 \<rparr>"
    by (simp add: cursorOffsetToPosition_def js_slice_def newline_def)
  have opts: "getPrettierSettings
      ((example_plugin bare_vault True)
          \<lparr> app := (app (example_plugin bare_vault True))
              \<lparr> commands := [''editor:save-file'' \<mapsto>
                                \<lparr> callback = Some (FormatThenSave (HostCallback 0)) \<rparr>] \<rparr> \<rparr>)
      = \<lparr> opt_embeddedLanguageFormatting = Off, opt_proseWrap = Preserve,
                        opt_printWidth = 80, useTabs = False, tabWidth = 4 \<rparr>"
    by (simp add: getPrettierSettings_def example_plugin_def bare_vault_def nullish_def
        DEFAULT_SETTINGS_def)
  show ?thesis
    unfolding hook
    using pos cur opts
    by (simp add: trace_def format_def formatDocument_def Let_def
        example_plugin_def example_editor_def changing_engine_def DEFAULT_SETTINGS_def
        nullish_def)
qed

end
